theory Spec2Isabelle
  imports Main "HOL-Library.Word"
begin

section \<open>The snake game of \<^verbatim>\<open>01-snake/main.go\<close>\<close>

text \<open>
  The simulation core of the game: the per-frame \<^verbatim>\<open>Update\<close> method with its keyboard
  handling, timing accumulator, chain movement, growth, collision detection and the
  crash cycle. Drawing, layout and font loading do not touch the simulation state and
  are left out; the \<^verbatim>\<open>offscreen\<close> image field is omitted for the same reason.
\<close>

subsection \<open>Constants\<close>

definition screenWidth :: nat where "screenWidth = 320"
definition screenHeight :: nat where "screenHeight = 240"
definition boxSize :: nat where "boxSize = 8"
definition boardWidth :: nat where "boardWidth = screenWidth div boxSize"
definition boardHeight :: nat where "boardHeight = screenHeight div boxSize"
definition MaxUint8 :: nat where "MaxUint8 = 255"
definition speed :: nat where "speed = MaxUint8 div 10"

subsection \<open>Data\<close>

text \<open>
  Go's \<^verbatim>\<open>int\<close> is taken at its 64-bit width, so \<open>+\<close> wraps as the compiled code does.
  The fields \<^verbatim>\<open>x\<close> and \<^verbatim>\<open>y\<close> of \<^verbatim>\<open>Point\<close> are named \<open>px\<close> and \<open>py\<close>, to keep
  \<open>x\<close> and \<open>y\<close> free as variable names.
\<close>

record Point =
  px :: "64 word"
  py :: "64 word"

text \<open>The \<^verbatim>\<open>iota\<close> constants of the phase, in the order of the source.\<close>

datatype Phase = RUNNING | CRASHED | CRASHING

text \<open>
  The snake is a slice of pointers in the source. Every pointer in it is a fresh
  allocation (one made by \<^verbatim>\<open>NewGame\<close>, one per \<^verbatim>\<open>append\<close> in \<^verbatim>\<open>Update\<close>), and
  \<^verbatim>\<open>food\<close> and \<^verbatim>\<open>direction\<close> are allocations of their own, so no two of them alias and
  the segments are modelled by value, head first.
\<close>

record Game =
  snake :: "Point list"
  food :: Point
  direction :: Point
  color :: "8 word"
  score :: "64 word"
  state :: Phase

text \<open>A run-time panic of the Go code.\<close>

datatype error = IndexOutOfRange

subsection \<open>External collaborators: keyboard and random numbers\<close>

datatype Key = KeyArrowUp | KeyArrowRight | KeyArrowDown | KeyArrowLeft

text \<open>The keyboard of one frame: what \<^verbatim>\<open>ebiten.IsKeyPressed\<close> answers for each key.\<close>

type_synonym keyboard = "Key \<Rightarrow> bool"

definition IsKeyPressed :: "keyboard \<Rightarrow> Key \<Rightarrow> bool" where
  "IsKeyPressed kb k = kb k"

text \<open>
  \<^verbatim>\<open>rand.IntN(n)\<close> returns some number in \<open>[0, n)\<close> for \<open>n > 0\<close>. The generator is
  outside the program: its raw draw is a parameter and is reduced into the range, so
  every value of the range is a possible result and no other is.
\<close>

definition IntN :: "nat \<Rightarrow> nat \<Rightarrow> nat" where
  "IntN n raw = raw mod n"

subsection \<open>Operations\<close>

definition handleKeyboard :: "keyboard \<Rightarrow> Game \<Rightarrow> Game" where
  "handleKeyboard kb g =
     (if IsKeyPressed kb KeyArrowUp then
        g\<lparr>direction := (direction g)\<lparr>px := 0, py := - 1\<rparr>\<rparr>
      else if IsKeyPressed kb KeyArrowRight then
        g\<lparr>direction := (direction g)\<lparr>px := 1, py := 0\<rparr>\<rparr>
      else if IsKeyPressed kb KeyArrowDown then
        g\<lparr>direction := (direction g)\<lparr>px := 0, py := 1\<rparr>\<rparr>
      else if IsKeyPressed kb KeyArrowLeft then
        g\<lparr>direction := (direction g)\<lparr>px := - 1, py := 0\<rparr>\<rparr>
      else g)"

text \<open>The loop of \<^verbatim>\<open>detectCollision\<close>, from index \<open>i\<close> on.\<close>

function detectCollision_from :: "nat \<Rightarrow> Point list \<Rightarrow> Point \<Rightarrow> bool" where
  "detectCollision_from i s h =
     (if i < length s then
        (if px (s ! i) = px h \<and> py (s ! i) = py h then True
         else detectCollision_from (i + 1) s h)
      else False)"
  by pat_completeness auto
termination
  by (relation "measure (\<lambda>(i, s, h). length s - i)") auto

declare detectCollision_from.simps [simp del]

definition detectCollision :: "Game \<Rightarrow> Point \<Rightarrow> bool" where
  "detectCollision g h = detectCollision_from 1 (snake g) h"

text \<open>\<^verbatim>\<open>setFood\<close>, with the two raw draws of its two calls of \<^verbatim>\<open>rand.IntN\<close>.\<close>

definition setFood :: "nat \<times> nat \<Rightarrow> Game \<Rightarrow> Game" where
  "setFood rnd g =
     (let g1 = g\<lparr>food := (food g)\<lparr>px := of_nat (IntN boardWidth (fst rnd))\<rparr>\<rparr>
      in g1\<lparr>food := (food g1)\<lparr>py := of_nat (IntN boardHeight (snd rnd))\<rparr>\<rparr>)"

text \<open>
  \<^verbatim>\<open>slices.Backward(s)\<close> yields the indices \<open>len(s) - 1\<close> down to \<open>0\<close> of the slice
  it was given; \<open>Backward body n\<close> runs the loop body at \<open>n - 1\<close>, ..., \<open>0\<close>.
\<close>

fun Backward :: "(nat \<Rightarrow> 'st \<Rightarrow> 'st) \<Rightarrow> nat \<Rightarrow> 'st \<Rightarrow> 'st" where
  "Backward body 0 st = st"
| "Backward body (Suc i) st = Backward body i (body i st)"

text \<open>
  The body of the movement loop at index \<open>i\<close>; \<open>v\<close> is the segment the iterator
  yields, \<open>tail\<close> the copy of the last segment taken before the loop. The loop only
  visits indices below the length of the snake.
\<close>

definition move_segment :: "nat \<times> nat \<Rightarrow> Point \<Rightarrow> nat \<Rightarrow> Game \<Rightarrow> Game" where
  "move_segment rnd tail i g =
     (if i = 0 then
        (let v0 = snake g ! 0;
             v1 = v0\<lparr>px := px v0 + px (direction g)\<rparr>;
             v = v1\<lparr>py := py v1 + py (direction g)\<rparr>;
             g1 = g\<lparr>snake := (snake g)[0 := v]\<rparr>
         in if px v = px (food g1) \<and> py v = py (food g1) then
              (let g2 = setFood rnd g1;
                   g3 = g2\<lparr>snake := snake g2 @ [tail]\<rparr>
               in g3\<lparr>score := score g3 + 1\<rparr>)
            else g1)
      else
        (let v0 = snake g ! i;
             v1 = v0\<lparr>px := px (snake g ! (i - 1))\<rparr>;
             v = v1\<lparr>py := py (snake g ! (i - 1))\<rparr>
         in g\<lparr>snake := (snake g)[i := v]\<rparr>))"

text \<open>
  The \<^verbatim>\<open>switch g.state\<close> of \<^verbatim>\<open>Update\<close>: one logical tick. \<^verbatim>\<open>g.snake[0]\<close> panics on
  an empty snake.
\<close>

definition logical_tick :: "nat \<times> nat \<Rightarrow> Point \<Rightarrow> Game \<Rightarrow> error + Game" where
  "logical_tick rnd tail g =
     (case state g of
        RUNNING \<Rightarrow>
          (let g1 = Backward (move_segment rnd tail) (length (snake g)) g
           in if snake g1 = [] then Inl IndexOutOfRange
              else if detectCollision g1 (snake g1 ! 0) then Inr (g1\<lparr>state := CRASHED\<rparr>)
              else Inr g1)
      | CRASHED \<Rightarrow> Inr (g\<lparr>score := 0\<rparr>\<lparr>state := CRASHING\<rparr>)
      | CRASHING \<Rightarrow>
          (if length (snake g) > 1
           then Inr (g\<lparr>snake := take (length (snake g) - 1) (snake g)\<rparr>)
           else Inr (g\<lparr>state := RUNNING\<rparr>)))"

text \<open>The test \<^verbatim>\<open>uint16(g.color)+speed >= math.MaxUint8\<close>.\<close>

definition tick_due :: "8 word \<Rightarrow> bool" where
  "tick_due c \<longleftrightarrow> (ucast c :: 16 word) + of_nat speed \<ge> of_nat MaxUint8"

text \<open>
  \<^verbatim>\<open>Update\<close>, one real-time frame. Reading the last segment of an empty snake panics.
  The Go method returns an \<^verbatim>\<open>error\<close> that is always \<^verbatim>\<open>nil\<close>; \<open>Inl\<close> is the panic.
\<close>

definition Update :: "keyboard \<Rightarrow> nat \<times> nat \<Rightarrow> Game \<Rightarrow> error + Game" where
  "Update kb rnd g0 =
     (let g = handleKeyboard kb g0
      in if snake g = [] then Inl IndexOutOfRange
         else
           (let tail = \<lparr>px = px (snake g ! (length (snake g) - 1)),
                        py = py (snake g ! (length (snake g) - 1))\<rparr>
            in case (if tick_due (color g) then logical_tick rnd tail g else Inr g) of
                 Inl e \<Rightarrow> Inl e
               | Inr g' \<Rightarrow> Inr (g'\<lparr>color := color g' + of_nat speed\<rparr>)))"

definition NewGame :: "nat \<times> nat \<Rightarrow> Game" where
  "NewGame rnd =
     setFood rnd
       \<lparr>snake = [\<lparr>px = of_nat (boardHeight div 2), py = of_nat (boardWidth div 2)\<rparr>],
        food = \<lparr>px = 0, py = 0\<rparr>,
        direction = \<lparr>px = 1, py = 0\<rparr>,
        color = 0,
        score = 0,
        state = RUNNING\<rparr>"

subsection \<open>Runs of frames\<close>

text \<open>A frame is the keyboard and the raw random draws the host supplies to one \<^verbatim>\<open>Update\<close>.\<close>

type_synonym frame = "keyboard \<times> (nat \<times> nat)"

fun run :: "frame list \<Rightarrow> Game \<Rightarrow> error + Game" where
  "run [] g = Inr g"
| "run (f # fs) g =
     (case Update (fst f) (snd f) g of Inl e \<Rightarrow> Inl e | Inr g' \<Rightarrow> run fs g')"

text \<open>
  How many of the frames fire a logical tick, from accumulator value \<open>c\<close>: every
  frame adds \<open>speed\<close> to the accumulator, whatever else it does.
\<close>

fun ticks_fired :: "frame list \<Rightarrow> 8 word \<Rightarrow> nat" where
  "ticks_fired [] c = 0"
| "ticks_fired (f # fs) c = (if tick_due c then 1 else 0) + ticks_fired fs (c + of_nat speed)"


subsection \<open>Notions used to state the properties\<close>

text \<open>A position moved by a direction vector.\<close>

definition advance :: "Point \<Rightarrow> Point \<Rightarrow> Point" where
  "advance p d = \<lparr>px = px p + px d, py = py p + py d\<rparr>"

text \<open>The cell that the raw draws \<open>rnd\<close> select on the board.\<close>

definition drawn_cell :: "nat \<times> nat \<Rightarrow> Point" where
  "drawn_cell rnd = \<lparr>px = of_nat (fst rnd mod boardWidth), py = of_nat (snd rnd mod boardHeight)\<rparr>"

text \<open>The head's position is also the position of some later segment.\<close>

definition head_hits_body :: "Point list \<Rightarrow> bool" where
  "head_hits_body s \<longleftrightarrow> (\<exists>i. 1 \<le> i \<and> i < length s \<and> s ! i = s ! 0)"

text \<open>
  What the movement loop computes, in closed form: the head advanced, every other
  segment on its predecessor's place, and on food a new food cell, the copy \<open>tp\<close> of
  the old tail appended and the score raised.
\<close>

definition moved_game :: "nat \<times> nat \<Rightarrow> Point \<Rightarrow> Game \<Rightarrow> Game" where
  "moved_game rnd tp g =
     (let h' = advance (hd (snake g)) (direction g)
      in if h' = food g
         then g\<lparr>snake := h' # butlast (snake g) @ [tp], food := drawn_cell rnd, score := score g + 1\<rparr>
         else g\<lparr>snake := h' # butlast (snake g)\<rparr>)"


text \<open>The four directions that the arrow keys set.\<close>

definition unit_direction :: "Point \<Rightarrow> bool" where
  "unit_direction d \<longleftrightarrow>
     d = \<lparr>px = 0, py = - 1\<rparr> \<or> d = \<lparr>px = 1, py = 0\<rparr> \<or>
     d = \<lparr>px = 0, py = 1\<rparr> \<or> d = \<lparr>px = - 1, py = 0\<rparr>"

text \<open>
  The crash cycle counted down: how many logical ticks a crashed or retracting game
  still needs to be running again, and what holds of it on the way.
\<close>

definition ticks_left :: "Game \<Rightarrow> nat" where
  "ticks_left g =
     (case state g of
        RUNNING \<Rightarrow> 0
      | CRASHED \<Rightarrow> length (snake g) + 1
      | CRASHING \<Rightarrow> length (snake g))"

definition retracting :: "Game \<Rightarrow> bool" where
  "retracting g \<longleftrightarrow>
     snake g \<noteq> [] \<and>
     (case state g of
        RUNNING \<Rightarrow> score g = 0 \<and> length (snake g) = 1
      | CRASHED \<Rightarrow> True
      | CRASHING \<Rightarrow> score g = 0)"

subsection \<open>Concrete inputs\<close>

text \<open>A keyboard with no arrow key pressed, and one with a single key pressed.\<close>

definition no_keys :: keyboard where
  "no_keys k = False"

definition only :: "Key \<Rightarrow> keyboard" where
  "only k k' = (k' = k)"

definition at :: "64 word \<Rightarrow> 64 word \<Rightarrow> Point" where
  "at a b = \<lparr>px = a, py = b\<rparr>"


text \<open>A frame with no key pressed.\<close>

definition idle :: frame where
  "idle = (no_keys, (0, 0))"

text \<open>
  Game states used as concrete inputs: a single segment with the food one step ahead
  and the state one tick later when the food is drawn under the head; three segments
  before and after a turn; two segments about to turn back onto the food, and the
  crash that results.
\<close>

definition game_food_ahead :: Game where
  "game_food_ahead =
     \<lparr>snake = [at 2 2], food = at 3 2, direction = at 1 0,
      color = 230, score = 0, state = RUNNING\<rparr>"

definition game_food_under_head :: Game where
  "game_food_under_head =
     \<lparr>snake = [at 3 2, at 2 2], food = at 3 2, direction = at 1 0,
      color = 255, score = 1, state = RUNNING\<rparr>"

definition game_three :: Game where
  "game_three =
     \<lparr>snake = [at 3 2, at 2 2, at 1 2], food = at 9 9, direction = at 1 0,
      color = 230, score = 2, state = RUNNING\<rparr>"

definition game_three_moved :: Game where
  "game_three_moved =
     \<lparr>snake = [at 3 3, at 3 2, at 2 2], food = at 9 9, direction = at 0 1,
      color = 255, score = 2, state = RUNNING\<rparr>"

definition game_turn_back :: Game where
  "game_turn_back =
     \<lparr>snake = [at 3 2, at 2 2], food = at 2 2, direction = at 1 0,
      color = 230, score = 1, state = RUNNING\<rparr>"

definition game_crashed :: Game where
  "game_crashed =
     \<lparr>snake = [at 2 2, at 3 2, at 2 2], food = at 5 5, direction = at (- 1) 0,
      color = 255, score = 2, state = CRASHED\<rparr>"

section \<open>Properties\<close>

subsection \<open>Constants and the tick condition\<close>

lemma speed_val: "speed = 25"
  by (simp add: speed_def MaxUint8_def)

lemma board_vals: "boardWidth = 40" "boardHeight = 30"
  by (simp_all add: boardWidth_def boardHeight_def screenWidth_def screenHeight_def boxSize_def)

lemma tick_due_unat: "tick_due c \<longleftrightarrow> 255 \<le> unat c + 25"
proof -
  have "unat c < 2 ^ LENGTH(8)" by (rule unsigned_less)
  then have "unat c < 256" by simp
  then have "unat ((ucast c :: 16 word) + 25) = unat c + 25"
    by (simp add: unat_word_ariths unsigned_ucast_eq take_bit_eq_mod)
  then show ?thesis
    by (simp add: tick_due_def speed_val MaxUint8_def word_le_nat_alt)
qed

subsection \<open>Collision detection\<close>

lemma Point_eq_iff: "(p::Point) = q \<longleftrightarrow> px p = px q \<and> py p = py q"
  by (cases p, cases q) simp

lemma detectCollision_from_iff:
  "detectCollision_from i s h \<longleftrightarrow> (\<exists>j. i \<le> j \<and> j < length s \<and> s ! j = h)"
proof (induction i s h rule: detectCollision_from.induct)
  case (1 i s h)
  show ?case
  proof (cases "i < length s")
    case False
    then show ?thesis by (simp add: detectCollision_from.simps [of i])
  next
    case True
    show ?thesis
    proof (cases "s ! i = h")
      case True
      with \<open>i < length s\<close> show ?thesis
        by (auto simp: detectCollision_from.simps [of i])
    next
      case False
      then have ne: "\<not> (px (s ! i) = px h \<and> py (s ! i) = py h)"
        by (simp add: Point_eq_iff)
      have "detectCollision_from i s h = detectCollision_from (i + 1) s h"
        using True ne by (subst detectCollision_from.simps) auto
      also have "\<dots> \<longleftrightarrow> (\<exists>j. i + 1 \<le> j \<and> j < length s \<and> s ! j = h)"
        using "1.IH" True ne by simp
      also have "\<dots> \<longleftrightarrow> (\<exists>j. i \<le> j \<and> j < length s \<and> s ! j = h)"
        using False by (metis Suc_eq_plus1 Suc_leI le_neq_implies_less Suc_leD)
      finally show ?thesis .
    qed
  qed
qed

subsection \<open>The movement loop in closed form\<close>

text \<open>
  Running the loop body at the indices \<open>k\<close>, ..., \<open>1\<close> shifts the first \<open>k\<close>
  segments one place towards the tail; the body at index \<open>0\<close> then moves the head.
\<close>

lemma Point_copy: "p\<lparr>px := px q, py := py q\<rparr> = (q::Point)"
  by (cases p, cases q) simp

lemma Point_rebuild: "\<lparr>px = px p, py = py p\<rparr> = (p::Point)"
  by (cases p) simp

lemma move_segment_pos:
  "0 < i \<Longrightarrow> move_segment rnd tp i g = g\<lparr>snake := (snake g)[i := snake g ! (i - 1)]\<rparr>"
  by (simp add: move_segment_def Let_def Point_copy)

lemma Backward_shift:
  "k < length (snake g) \<Longrightarrow>
   Backward (move_segment rnd tp) (Suc k) g =
   move_segment rnd tp 0 (g\<lparr>snake := hd (snake g) # take k (snake g) @ drop (Suc k) (snake g)\<rparr>)"
proof (induction k arbitrary: g)
  case 0
  then have "hd (snake g) # take 0 (snake g) @ drop (Suc 0) (snake g) = snake g"
    by (cases "snake g") simp_all
  then show ?case by simp
next
  case (Suc k)
  let ?s = "snake g"
  let ?g' = "g\<lparr>snake := ?s[Suc k := ?s ! k]\<rparr>"
  have len: "k < length (snake ?g')" using Suc.prems by simp
  have hd: "hd (?s[Suc k := ?s ! k]) = hd ?s"
    using Suc.prems by (cases ?s) simp_all
  have dr: "drop (Suc k) (?s[Suc k := ?s ! k]) = ?s ! k # drop (Suc (Suc k)) ?s"
    using Suc.prems by (simp add: drop_update_swap Cons_nth_drop_Suc [symmetric] del: drop_Suc_Cons)
  have tk: "take (Suc k) ?s = take k ?s @ [?s ! k]"
    using Suc.prems by (simp add: take_Suc_conv_app_nth)
  have "Backward (move_segment rnd tp) (Suc (Suc k)) g
        = Backward (move_segment rnd tp) (Suc k) ?g'"
    by (simp add: move_segment_pos)
  also have "\<dots> = move_segment rnd tp 0
       (?g'\<lparr>snake := hd (snake ?g') # take k (snake ?g') @ drop (Suc k) (snake ?g')\<rparr>)"
    by (rule Suc.IH [OF len])
  also have "\<dots> = move_segment rnd tp 0
       (g\<lparr>snake := hd ?s # take (Suc k) ?s @ drop (Suc (Suc k)) ?s\<rparr>)"
    using hd dr tk by simp
  finally show ?case .
qed


lemma handleKeyboard_fields:
  "snake (handleKeyboard kb g) = snake g"
  "food (handleKeyboard kb g) = food g"
  "color (handleKeyboard kb g) = color g"
  "score (handleKeyboard kb g) = score g"
  "state (handleKeyboard kb g) = state g"
  by (simp_all add: handleKeyboard_def)

lemma setFood_eq: "setFood rnd g = g\<lparr>food := drawn_cell rnd\<rparr>"
  by (simp add: setFood_def drawn_cell_def IntN_def Let_def)

lemma detectCollision_iff:
  "detectCollision_from (Suc 0) s (s ! 0) \<longleftrightarrow> head_hits_body s"
  by (simp add: detectCollision_from_iff head_hits_body_def)

lemma Backward_snake:
  assumes "snake g \<noteq> []"
  shows "Backward (move_segment rnd tp) (length (snake g)) g =
         move_segment rnd tp 0 (g\<lparr>snake := hd (snake g) # butlast (snake g)\<rparr>)"
proof -
  obtain k where k: "length (snake g) = Suc k"
    using assms by (cases "snake g") simp_all
  then have "k < length (snake g)" by simp
  from Backward_shift [OF this, of rnd tp] k show ?thesis
    by (simp add: butlast_conv_take)
qed

lemma move_loop_eq:
  assumes "snake g \<noteq> []"
  shows "Backward (move_segment rnd tp) (length (snake g)) g = moved_game rnd tp g"
  unfolding Backward_snake [OF assms]
  by (simp add: move_segment_def moved_game_def advance_def setFood_eq Let_def Point_eq_iff)

lemma moved_game_snake_ne: "snake (moved_game rnd tp g) \<noteq> []"
  by (simp add: moved_game_def Let_def)

subsection \<open>One frame\<close>

lemma running_tick:
  assumes "snake g \<noteq> []" "state g = RUNNING"
  shows "logical_tick rnd tp g =
         Inr (if head_hits_body (snake (moved_game rnd tp g))
              then (moved_game rnd tp g)\<lparr>state := CRASHED\<rparr>
              else moved_game rnd tp g)"
  using assms
  by (simp add: logical_tick_def move_loop_eq moved_game_snake_ne detectCollision_def
      detectCollision_iff Let_def)

lemma Update_frame:
  assumes "snake g \<noteq> []"
  shows "Update kb rnd g =
         (case (if tick_due (color g) then logical_tick rnd (last (snake g)) (handleKeyboard kb g)
                else Inr (handleKeyboard kb g)) of
            Inl e \<Rightarrow> Inl e
          | Inr g' \<Rightarrow> Inr (g'\<lparr>color := color g' + of_nat speed\<rparr>))"
  using assms
  by (simp add: Update_def Let_def handleKeyboard_fields last_conv_nth Point_rebuild)


lemma logical_tick_total:
  assumes "snake g \<noteq> []"
  shows "\<exists>g'. logical_tick rnd tp g = Inr g' \<and> snake g' \<noteq> [] \<and> color g' = color g
              \<and> direction g' = direction g"
proof (cases "state g")
  case RUNNING
  then show ?thesis
    using assms by (simp add: running_tick moved_game_def Let_def)
next
  case CRASHED
  then show ?thesis using assms by (simp add: logical_tick_def)
next
  case CRASHING
  then show ?thesis
    using assms by (cases "snake g") (simp_all add: logical_tick_def)
qed

lemma Update_tick_running:
  assumes "snake g \<noteq> []" "tick_due (color g)" "state g = RUNNING"
  shows "Update kb rnd g =
         Inr (let m = moved_game rnd (last (snake g)) (handleKeyboard kb g)
              in (if head_hits_body (snake m) then m\<lparr>state := CRASHED\<rparr> else m)
                 \<lparr>color := color g + of_nat speed\<rparr>)"
  using assms
  by (simp add: Update_frame running_tick handleKeyboard_fields moved_game_def Let_def)

lemma moved_game_nth:
  assumes "snake g \<noteq> []" "1 \<le> i" "i < length (snake (moved_game rnd (last (snake g)) g))"
  shows "snake (moved_game rnd (last (snake g)) g) ! i = snake g ! (i - 1)"
proof -
  obtain j where j: "i = Suc j" using assms(2) by (cases i) simp_all
  show ?thesis
  proof (cases "advance (hd (snake g)) (direction g) = food g")
    case True
    then have "snake (moved_game rnd (last (snake g)) g) ! i = (butlast (snake g) @ [last (snake g)]) ! j"
      by (simp add: moved_game_def Let_def j)
    then show ?thesis using assms(1) j by simp
  next
    case False
    then have s: "snake (moved_game rnd (last (snake g)) g) = advance (hd (snake g)) (direction g) # butlast (snake g)"
      by (simp add: moved_game_def Let_def)
    with assms(3) j have "j < length (butlast (snake g))" by simp
    then show ?thesis using s j by (simp add: nth_butlast)
  qed
qed

lemma moved_game_head:
  "snake g \<noteq> [] \<Longrightarrow> snake (moved_game rnd tp g) ! 0 = advance (snake g ! 0) (direction g)"
  by (cases "snake g") (simp_all add: moved_game_def Let_def)

lemma idle_frame_eq:
  assumes "snake g \<noteq> []" "\<not> tick_due (color g)"
  shows "Update kb rnd g = Inr ((handleKeyboard kb g)\<lparr>color := color g + of_nat speed\<rparr>)"
  using assms by (simp add: Update_frame handleKeyboard_fields)

subsection \<open>Evaluation at concrete inputs\<close>

lemmas eval_defs = Update_def logical_tick_def move_segment_def setFood_def handleKeyboard_def
  IsKeyPressed_def IntN_def detectCollision_def detectCollision_from.simps tick_due_def
  speed_def MaxUint8_def boardWidth_def boardHeight_def screenWidth_def screenHeight_def
  boxSize_def no_keys_def only_def at_def Let_def advance_def

lemma tick_due_230: "tick_due 230"
  by (simp add: tick_due_def speed_def MaxUint8_def)

lemma tick_due_255: "tick_due 255"
  by (simp add: tick_due_def speed_def MaxUint8_def)


subsection \<open>Growth\<close>

text \<open>
  C2. On every logical tick in the Running phase at which the head's new position, its
  old position plus the direction in force, equals the food position, the snake is one
  segment longer after the tick and the score is one higher. The score is a Go \<^verbatim>\<open>int\<close>,
  so the sum is the one the machine computes.
\<close>
theorem growth_on_food:
  assumes "snake g \<noteq> []" and "tick_due (color g)" and "state g = RUNNING"
    and "advance (snake g ! 0) (direction (handleKeyboard kb g)) = food g"
  shows "\<exists>g'. Update kb rnd g = Inr g' \<and> length (snake g') = length (snake g) + 1
               \<and> score g' = score g + 1"
proof -
  have "hd (snake g) = snake g ! 0" using assms(1) by (simp add: hd_conv_nth)
  with assms show ?thesis
    by (simp add: Update_tick_running moved_game_def handleKeyboard_fields Let_def)
qed

theorem growth_on_food_witness:
  "snake game_food_ahead \<noteq> [] \<and> tick_due (color game_food_ahead)
   \<and> state game_food_ahead = RUNNING
   \<and> advance (snake game_food_ahead ! 0) (direction (handleKeyboard no_keys game_food_ahead))
       = food game_food_ahead
   \<and> (\<exists>g'. Update no_keys (7, 9) game_food_ahead = Inr g'
          \<and> length (snake g') = length (snake game_food_ahead) + 1
          \<and> score g' = score game_food_ahead + 1)"
proof -
  have h1: "snake game_food_ahead \<noteq> []" by (simp add: game_food_ahead_def)
  have h2: "tick_due (color game_food_ahead)" by (simp add: game_food_ahead_def tick_due_230)
  have h3: "state game_food_ahead = RUNNING" by (simp add: game_food_ahead_def)
  have h4: "advance (snake game_food_ahead ! 0) (direction (handleKeyboard no_keys game_food_ahead))
      = food game_food_ahead"
    by (simp add: game_food_ahead_def eval_defs)
  from growth_on_food [OF h1 h2 h3 h4, of "(7, 9)"] h1 h2 h3 h4 show ?thesis by blast
qed

subsection \<open>Chain following\<close>

text \<open>
  C3. On every logical tick in the Running phase, every segment but the head stands
  after the tick where its predecessor stood before it (the segment appended on growth
  included, whose predecessor is the old tail), and the head stands at its old
  position plus the direction in force, which is the direction that the keyboard
  handling of this frame leaves.
\<close>
theorem chain_follow:
  assumes "snake g \<noteq> []" and "tick_due (color g)" and "state g = RUNNING"
    and "Update kb rnd g = Inr g'"
  shows "(\<forall>i. 1 \<le> i \<and> i < length (snake g') \<longrightarrow> snake g' ! i = snake g ! (i - 1))
         \<and> snake g' ! 0 = advance (snake g ! 0) (direction g')
         \<and> direction g' = direction (handleKeyboard kb g)"
proof -
  let ?k = "handleKeyboard kb g"
  let ?m = "moved_game rnd (last (snake ?k)) ?k"
  have k: "snake ?k \<noteq> []" "snake ?k = snake g" using assms(1) by (simp_all add: handleKeyboard_fields)
  have g': "snake g' = snake ?m" "direction g' = direction ?k"
    using assms by (auto simp: Update_tick_running Let_def handleKeyboard_fields moved_game_def)
  have "\<forall>i. 1 \<le> i \<and> i < length (snake ?m) \<longrightarrow> snake ?m ! i = snake ?k ! (i - 1)"
    using moved_game_nth [OF k(1)] by blast
  moreover have "snake ?m ! 0 = advance (snake ?k ! 0) (direction ?k)"
    by (rule moved_game_head [OF k(1)])
  ultimately show ?thesis using g' k(2) by simp
qed

theorem chain_follow_witness:
  "snake game_three \<noteq> [] \<and> tick_due (color game_three) \<and> state game_three = RUNNING
   \<and> Update (only KeyArrowDown) (0, 0) game_three = Inr game_three_moved
   \<and> snake game_three_moved ! 1 = snake game_three ! 0
   \<and> snake game_three_moved ! 2 = snake game_three ! 1
   \<and> snake game_three_moved ! 0 = advance (snake game_three ! 0) (direction game_three_moved)
   \<and> direction game_three_moved = direction (handleKeyboard (only KeyArrowDown) game_three)"
proof -
  have h1: "snake game_three \<noteq> []" by (simp add: game_three_def)
  have h2: "tick_due (color game_three)" by (simp add: game_three_def tick_due_230)
  have h3: "state game_three = RUNNING" by (simp add: game_three_def)
  have h4: "Update (only KeyArrowDown) (0, 0) game_three = Inr game_three_moved"
    by (simp add: eval_defs game_three_def game_three_moved_def)
  have len: "length (snake game_three_moved) = 3" by (simp add: game_three_moved_def)
  from chain_follow [OF h1 h2 h3 h4] len h1 h2 h3 h4 show ?thesis by simp
qed

subsection \<open>Collision\<close>

text \<open>
  C4. On a logical tick the phase is Crashed afterwards if and only if the tick was a
  movement step, taken in the Running phase, after which the head's position is that
  of some other segment. Nothing else sets Crashed: the ticks of the other two phases
  never end in it, and a frame without a tick leaves the phase as it is.
\<close>
theorem crashed_iff_collision:
  assumes "snake g \<noteq> []" and "Update kb rnd g = Inr g'"
  shows "(tick_due (color g) \<longrightarrow>
            (state g' = CRASHED \<longleftrightarrow> state g = RUNNING \<and> head_hits_body (snake g')))
         \<and> (\<not> tick_due (color g) \<longrightarrow> state g' = state g)"
proof (cases "tick_due (color g)")
  case False
  with assms show ?thesis
    by (auto simp: Update_frame handleKeyboard_fields)
next
  case True
  show ?thesis
  proof (cases "state g")
    case RUNNING
    with True assms show ?thesis
      by (auto simp: Update_tick_running Let_def moved_game_def handleKeyboard_fields split: if_splits)
  next
    case CRASHED
    with True assms show ?thesis
      by (auto simp: Update_frame logical_tick_def handleKeyboard_fields)
  next
    case CRASHING
    with True assms show ?thesis
      by (auto simp: Update_frame logical_tick_def handleKeyboard_fields split: if_splits)
  qed
qed

theorem crashed_iff_collision_witness:
  "snake game_turn_back \<noteq> []
   \<and> Update (only KeyArrowLeft) (5, 5) game_turn_back = Inr game_crashed
   \<and> tick_due (color game_turn_back)
   \<and> state game_crashed = CRASHED \<and> state game_turn_back = RUNNING
   \<and> head_hits_body (snake game_crashed)"
proof -
  have h1: "snake game_turn_back \<noteq> []" by (simp add: game_turn_back_def)
  have h2: "Update (only KeyArrowLeft) (5, 5) game_turn_back = Inr game_crashed"
    by (simp add: eval_defs game_turn_back_def game_crashed_def)
  have h3: "tick_due (color game_turn_back)" by (simp add: game_turn_back_def tick_due_230)
  have h4: "state game_crashed = CRASHED" by (simp add: game_crashed_def)
  from crashed_iff_collision [OF h1 h2] h1 h2 h3 h4 show ?thesis by simp
qed

subsection \<open>The tick of the Crashed phase\<close>

text \<open>
  C8. A logical tick taken in the Crashed phase sets the score to 0 and the phase to
  Crashing, whatever the rest of the state, and leaves snake, food and direction as
  they are. The frame around the tick is, as every frame, the keyboard handling first
  and the accumulator step last; the second part says so for \<open>Update\<close>.
\<close>
theorem crashed_tick_effect:
  assumes "state g = CRASHED"
  shows "logical_tick rnd tp g = Inr (g\<lparr>score := 0, state := CRASHING\<rparr>)
         \<and> (snake g \<noteq> [] \<and> tick_due (color g) \<longrightarrow>
              Update kb rnd g =
              Inr ((handleKeyboard kb g)\<lparr>score := 0, state := CRASHING, color := color g + of_nat speed\<rparr>))"
  using assms by (simp add: logical_tick_def Update_frame handleKeyboard_fields)

theorem crashed_tick_effect_witness:
  "state game_crashed = CRASHED \<and> snake game_crashed \<noteq> [] \<and> tick_due (color game_crashed)
   \<and> logical_tick (0, 0) (at 2 2) game_crashed
       = Inr (game_crashed\<lparr>score := 0, state := CRASHING\<rparr>)
   \<and> Update (only KeyArrowUp) (0, 0) game_crashed
       = Inr ((handleKeyboard (only KeyArrowUp) game_crashed)
               \<lparr>score := 0, state := CRASHING, color := color game_crashed + of_nat speed\<rparr>)"
proof -
  have h1: "state game_crashed = CRASHED" by (simp add: game_crashed_def)
  have h2: "snake game_crashed \<noteq> []" by (simp add: game_crashed_def)
  have h3: "tick_due (color game_crashed)" by (simp add: game_crashed_def tick_due_255)
  from crashed_tick_effect [OF h1, of "(0, 0)" "at 2 2" "only KeyArrowUp"] h1 h2 h3
  show ?thesis by simp
qed

subsection \<open>A single segment cannot crash\<close>

lemma handleKeyboard_unit:
  "unit_direction (direction g) \<Longrightarrow> unit_direction (direction (handleKeyboard kb g))"
  by (simp add: handleKeyboard_def unit_direction_def)

lemma advance_unit_ne: "unit_direction d \<Longrightarrow> advance p d \<noteq> p"
  by (auto simp: unit_direction_def advance_def Point_eq_iff)

text \<open>
  C10. A logical tick in the Running phase of a snake of one segment, with a unit
  direction, leaves the phase Running: the only segment it can be compared with is the
  one growth appends at the head's old position, and the moved head is elsewhere.
\<close>
theorem single_segment_keeps_running:
  assumes "length (snake g) = 1" and "tick_due (color g)" and "state g = RUNNING"
    and "unit_direction (direction g)"
  shows "\<exists>g'. Update kb rnd g = Inr g' \<and> state g' = RUNNING"
proof -
  obtain h where s: "snake g = [h]"
    using assms(1) by (cases "snake g") simp_all
  let ?d = "direction (handleKeyboard kb g)"
  have ne: "advance h ?d \<noteq> h"
    by (rule advance_unit_ne [OF handleKeyboard_unit [OF assms(4)]])
  then have "\<not> head_hits_body [advance h ?d]" "\<not> head_hits_body [advance h ?d, h]"
    by (auto simp: head_hits_body_def less_Suc_eq)
  with s assms(2,3) show ?thesis
    by (auto simp: Update_tick_running moved_game_def handleKeyboard_fields Let_def)
qed


theorem single_segment_keeps_running_witness:
  "length (snake game_food_ahead) = 1 \<and> tick_due (color game_food_ahead)
   \<and> state game_food_ahead = RUNNING \<and> unit_direction (direction game_food_ahead)
   \<and> (\<exists>g'. Update no_keys (3, 2) game_food_ahead = Inr g' \<and> state g' = RUNNING)"
proof -
  have h1: "length (snake game_food_ahead) = 1" by (simp add: game_food_ahead_def)
  have h2: "tick_due (color game_food_ahead)" by (simp add: game_food_ahead_def tick_due_230)
  have h3: "state game_food_ahead = RUNNING" by (simp add: game_food_ahead_def)
  have h4: "unit_direction (direction game_food_ahead)"
    by (simp add: game_food_ahead_def unit_direction_def at_def)
  from single_segment_keeps_running [OF h1 h2 h3 h4, of no_keys "(3, 2)"] h1 h2 h3 h4
  show ?thesis by blast
qed

subsection \<open>The crash cycle\<close>

lemma crash_step:
  assumes "retracting g" and "tick_due (color g) \<Longrightarrow> state g \<noteq> RUNNING"
  shows "\<exists>g1. Update kb rnd g = Inr g1 \<and> retracting g1 \<and> color g1 = color g + of_nat speed
              \<and> ticks_left g1 + (if tick_due (color g) then 1 else 0) = ticks_left g"
proof (cases "tick_due (color g)")
  case False
  with assms(1) show ?thesis
    by (cases "state g")
       (simp_all add: idle_frame_eq retracting_def ticks_left_def handleKeyboard_fields)
next
  case True
  with assms(2) have nr: "state g \<noteq> RUNNING" by simp
  have ne: "snake g \<noteq> []" using assms(1) by (simp add: retracting_def)
  show ?thesis
  proof (cases "state g")
    case RUNNING
    with nr show ?thesis by simp
  next
    case CRASHED
    with True ne show ?thesis
      by (simp add: Update_frame logical_tick_def handleKeyboard_fields retracting_def ticks_left_def)
  next
    case CRASHING
    with True ne assms(1) show ?thesis
      by (cases "snake g")
         (auto simp: Update_frame logical_tick_def handleKeyboard_fields retracting_def ticks_left_def)
  qed
qed

lemma crash_run:
  assumes "retracting g" and "ticks_fired fs (color g) \<le> ticks_left g"
  shows "\<exists>g'. run fs g = Inr g' \<and> retracting g'
              \<and> ticks_left g' + ticks_fired fs (color g) = ticks_left g"
  using assms
proof (induction fs arbitrary: g)
  case Nil
  then show ?case by simp
next
  case (Cons f fs)
  have "tick_due (color g) \<Longrightarrow> state g \<noteq> RUNNING"
    using Cons.prems(2) by (auto simp: ticks_left_def)
  from crash_step [OF Cons.prems(1) this, of "fst f" "snd f"]
  obtain g1 where g1: "Update (fst f) (snd f) g = Inr g1" "retracting g1"
      "color g1 = color g + of_nat speed"
      "ticks_left g1 + (if tick_due (color g) then 1 else 0) = ticks_left g"
    by blast
  have "ticks_fired fs (color g1) \<le> ticks_left g1"
    using Cons.prems(2) g1(3,4) by (simp split: if_splits)
  from Cons.IH [OF g1(2) this]
  obtain g' where g': "run fs g1 = Inr g'" "retracting g'"
      "ticks_left g' + ticks_fired fs (color g1) = ticks_left g1"
    by blast
  show ?case
    using g1 g' by (auto split: if_splits)
qed

text \<open>
  C1, as stated, asks for Running after exactly \<open>N\<close> logical ticks from a Crashed
  state of length \<open>N\<close>. The first tick only resets the score, \<open>N - 1\<close> ticks retract
  the snake to one segment, and the return to Running is a tick of its own, so after
  \<open>N\<close> ticks the game is still Crashing. Here \<open>N = 3\<close>, with three ticks in 21 frames.
\<close>

theorem crash_cycle_counterexample:
  "state game_crashed = CRASHED \<and> length (snake game_crashed) = 3
   \<and> ticks_fired (replicate 21 idle) (color game_crashed) = 3
   \<and> run (replicate 21 idle) game_crashed =
       Inr \<lparr>snake = [at 2 2], food = at 5 5, direction = at (- 1) 0,
            color = 12, score = 0, state = CRASHING\<rparr>"
  by code_simp

text \<open>
  C1, amended. From every Crashed state of length \<open>N \<ge> 1\<close>, any run of frames in which
  exactly \<open>N + 1\<close> logical ticks fire ends Running with a snake of length 1 and score 0.
\<close>
theorem crash_cycle:
  assumes "state g = CRASHED" and "1 \<le> length (snake g)"
    and "ticks_fired fs (color g) = length (snake g) + 1"
  shows "\<exists>g'. run fs g = Inr g' \<and> state g' = RUNNING \<and> length (snake g') = 1 \<and> score g' = 0"
proof -
  have r: "retracting g" and t: "ticks_left g = length (snake g) + 1"
    using assms(1,2) by (auto simp: retracting_def ticks_left_def)
  from crash_run [OF r, of fs] assms(3) t
  obtain g' where g': "run fs g = Inr g'" "retracting g'" "ticks_left g' = 0"
    by auto
  have "snake g' \<noteq> []" using g'(2) by (simp add: retracting_def)
  with g'(3) have "state g' = RUNNING"
    by (cases "state g'") (simp_all add: ticks_left_def)
  with g' show ?thesis by (auto simp: retracting_def)
qed

theorem crash_cycle_witness:
  "state game_crashed = CRASHED \<and> 1 \<le> length (snake game_crashed)
   \<and> ticks_fired (replicate 31 idle) (color game_crashed) = length (snake game_crashed) + 1
   \<and> (\<exists>g'. run (replicate 31 idle) game_crashed = Inr g' \<and> state g' = RUNNING
          \<and> length (snake g') = 1 \<and> score g' = 0)"
proof -
  have h1: "state game_crashed = CRASHED" by (simp add: game_crashed_def)
  have h2: "1 \<le> length (snake game_crashed)" by (simp add: game_crashed_def)
  have h3: "ticks_fired (replicate 31 idle) (color game_crashed) = length (snake game_crashed) + 1"
    by code_simp
  from crash_cycle [OF h1 h2 h3] h1 h2 h3 show ?thesis by blast
qed

lemma crash_cycle_one_short:
  assumes "state g = CRASHED" and "1 \<le> length (snake g)"
    and "ticks_fired fs (color g) = length (snake g)"
  shows "\<exists>g'. run fs g = Inr g' \<and> state g' = CRASHING \<and> length (snake g') = 1 \<and> score g' = 0"
proof -
  have r: "retracting g" and t: "ticks_left g = length (snake g) + 1"
    using assms(1,2) by (auto simp: retracting_def ticks_left_def)
  from crash_run [OF r, of fs] assms(3) t
  obtain g' where g': "run fs g = Inr g'" "retracting g'" "ticks_left g' = 1"
    by auto
  have ne: "snake g' \<noteq> []" using g'(2) by (simp add: retracting_def)
  have "state g' = CRASHING \<and> length (snake g') = 1"
  proof (cases "state g'")
    case RUNNING
    with g'(3) show ?thesis by (simp add: ticks_left_def)
  next
    case CRASHED
    with g'(3) ne show ?thesis by (simp add: ticks_left_def)
  next
    case CRASHING
    with g'(3) show ?thesis by (simp add: ticks_left_def)
  qed
  with g' show ?thesis by (auto simp: retracting_def)
qed

subsection \<open>Food re-placement\<close>

lemma drawn_cell_on_board:
  "unat (px (drawn_cell rnd)) < boardWidth" "unat (py (drawn_cell rnd)) < boardHeight"
proof -
  have "fst rnd mod 40 < 40" "snd rnd mod 30 < 30" by simp_all
  moreover have "(40::nat) < 2 ^ 64" "(30::nat) < 2 ^ 64" by simp_all
  ultimately have "fst rnd mod 40 < (2::nat) ^ 64" "snd rnd mod 30 < (2::nat) ^ 64"
    by (blast intro: less_trans)+
  then show "unat (px (drawn_cell rnd)) < boardWidth" "unat (py (drawn_cell rnd)) < boardHeight"
    by (simp_all add: drawn_cell_def board_vals unat_of_nat)
qed

text \<open>
  C5, as stated, asks that the food placed after a consumption never is where the head
  is. \<^verbatim>\<open>setFood\<close> draws a cell of the board without looking at the snake, and the
  draw can be the cell just eaten, where the head now stands.
\<close>

theorem food_replacement_counterexample:
  "tick_due (color game_food_ahead) \<and> state game_food_ahead = RUNNING
   \<and> advance (snake game_food_ahead ! 0) (direction game_food_ahead) = food game_food_ahead
   \<and> Update no_keys (3, 2) game_food_ahead = Inr game_food_under_head
   \<and> food game_food_under_head = snake game_food_under_head ! 0"
  by (simp add: eval_defs game_food_ahead_def game_food_under_head_def)

text \<open>
  C5, amended. On every food-consumption tick the new food position is the cell that
  the two draws select, inside the board, whatever the snake; it is the head's position
  at the end of the tick exactly when that cell is the one just eaten.
\<close>
theorem food_replacement:
  assumes "snake g \<noteq> []" and "tick_due (color g)" and "state g = RUNNING"
    and "advance (snake g ! 0) (direction (handleKeyboard kb g)) = food g"
  shows "\<exists>g'. Update kb rnd g = Inr g' \<and> food g' = drawn_cell rnd
               \<and> unat (px (food g')) < boardWidth \<and> unat (py (food g')) < boardHeight
               \<and> (food g' = snake g' ! 0 \<longleftrightarrow> drawn_cell rnd = food g)"
proof -
  have "hd (snake g) = snake g ! 0" using assms(1) by (simp add: hd_conv_nth)
  with assms show ?thesis
    by (auto simp: Update_tick_running moved_game_def handleKeyboard_fields Let_def drawn_cell_on_board)
qed

theorem food_replacement_witness:
  "snake game_food_ahead \<noteq> [] \<and> tick_due (color game_food_ahead)
   \<and> state game_food_ahead = RUNNING
   \<and> advance (snake game_food_ahead ! 0) (direction (handleKeyboard no_keys game_food_ahead))
       = food game_food_ahead
   \<and> (\<exists>g'. Update no_keys (47, 39) game_food_ahead = Inr g' \<and> food g' = at 7 9
          \<and> unat (px (food g')) < boardWidth \<and> unat (py (food g')) < boardHeight
          \<and> food g' \<noteq> snake g' ! 0)"
proof -
  have h1: "snake game_food_ahead \<noteq> []" by (simp add: game_food_ahead_def)
  have h2: "tick_due (color game_food_ahead)" by (simp add: game_food_ahead_def tick_due_230)
  have h3: "state game_food_ahead = RUNNING" by (simp add: game_food_ahead_def)
  have h4: "advance (snake game_food_ahead ! 0) (direction (handleKeyboard no_keys game_food_ahead))
      = food game_food_ahead"
    by (simp add: game_food_ahead_def eval_defs)
  have d: "drawn_cell (47, 39) = at 7 9" "at 7 9 \<noteq> food game_food_ahead"
    by (simp_all add: drawn_cell_def board_vals at_def game_food_ahead_def)
  from food_replacement [OF h1 h2 h3 h4, of "(47, 39)"] d h1 h2 h3 h4 show ?thesis by auto
qed

subsection \<open>Frames without a tick\<close>

lemma handleKeyboard_no_key: "(\<forall>k. \<not> kb k) \<Longrightarrow> handleKeyboard kb g = g"
  by (simp add: handleKeyboard_def IsKeyPressed_def)

text \<open>
  C6, as stated, has the direction unchanged on a frame without a logical tick. The
  keyboard is handled at the start of every \<^verbatim>\<open>Update\<close>, so an arrow key pressed on such
  a frame overwrites the direction at once.
\<close>

theorem idle_frame_counterexample:
  "\<not> tick_due (color (NewGame (3, 4)))
   \<and> direction (NewGame (3, 4)) = at 1 0
   \<and> Update (only KeyArrowUp) (0, 0) (NewGame (3, 4)) =
       Inr \<lparr>snake = [at 15 20], food = at 3 4, direction = at 0 (- 1),
            color = 25, score = 0, state = RUNNING\<rparr>"
  by (simp add: NewGame_def eval_defs)

text \<open>
  C6, amended. A frame on which the accumulator does not reach the threshold leaves
  snake, food, score and phase unchanged; the direction is the one the keyboard
  handling of that frame sets, and is unchanged when no arrow key is pressed; the
  accumulator advances by \<open>speed\<close>, wrapping in 8 bits.
\<close>
theorem idle_frame:
  assumes "snake g \<noteq> []" and "\<not> tick_due (color g)"
  shows "\<exists>g'. Update kb rnd g = Inr g' \<and> snake g' = snake g \<and> food g' = food g
               \<and> score g' = score g \<and> state g' = state g
               \<and> direction g' = direction (handleKeyboard kb g)
               \<and> ((\<forall>k. \<not> kb k) \<longrightarrow> direction g' = direction g)
               \<and> color g' = color g + of_nat speed"
  using assms by (simp add: idle_frame_eq handleKeyboard_fields handleKeyboard_no_key)

theorem idle_frame_witness:
  "snake (NewGame (3, 4)) \<noteq> [] \<and> \<not> tick_due (color (NewGame (3, 4))) \<and> (\<forall>k. \<not> no_keys k)
   \<and> (\<exists>g'. Update no_keys (0, 0) (NewGame (3, 4)) = Inr g'
          \<and> snake g' = snake (NewGame (3, 4)) \<and> food g' = food (NewGame (3, 4))
          \<and> score g' = score (NewGame (3, 4)) \<and> state g' = state (NewGame (3, 4))
          \<and> direction g' = direction (NewGame (3, 4))
          \<and> color g' = color (NewGame (3, 4)) + of_nat speed)"
proof -
  have h1: "snake (NewGame (3, 4)) \<noteq> []" by (simp add: NewGame_def eval_defs)
  have h2: "\<not> tick_due (color (NewGame (3, 4)))" by (simp add: NewGame_def eval_defs)
  have h3: "\<forall>k. \<not> no_keys k" by (simp add: no_keys_def)
  from idle_frame [OF h1 h2, of no_keys "(0, 0)"] h1 h2 h3 show ?thesis by auto
qed

subsection \<open>The timing accumulator\<close>

text \<open>
  C7. On every frame the phase dispatch runs if and only if the accumulator plus
  \<open>speed\<close>, added without truncation, is at least 255; and whatever the phase, and
  whether or not a tick fired, the accumulator afterwards is the old one plus \<open>speed\<close>
  modulo 256.
\<close>
theorem accumulator_step:
  assumes "snake g \<noteq> []"
  shows "Update kb rnd g =
           (case (if MaxUint8 \<le> unat (color g) + speed
                  then logical_tick rnd (last (snake g)) (handleKeyboard kb g)
                  else Inr (handleKeyboard kb g)) of
              Inl e \<Rightarrow> Inl e
            | Inr g' \<Rightarrow> Inr (g'\<lparr>color := color g' + of_nat speed\<rparr>))
         \<and> (\<exists>g'. Update kb rnd g = Inr g' \<and> unat (color g') = (unat (color g) + speed) mod 256)"
proof -
  have due: "tick_due (color g) \<longleftrightarrow> MaxUint8 \<le> unat (color g) + speed"
    by (simp add: tick_due_unat speed_val MaxUint8_def)
  have k: "snake (handleKeyboard kb g) \<noteq> []" using assms by (simp add: handleKeyboard_fields)
  from logical_tick_total [OF k, of rnd "last (snake g)"]
  obtain g1 where g1: "logical_tick rnd (last (snake g)) (handleKeyboard kb g) = Inr g1"
      "color g1 = color g"
    by (auto simp: handleKeyboard_fields)
  have "unat (color g + of_nat speed) = (unat (color g) + speed) mod 256"
    by (simp add: speed_val unat_word_ariths)
  with g1 due assms show ?thesis
    by (simp add: Update_frame handleKeyboard_fields)
qed

theorem accumulator_step_witness:
  "snake game_crashed \<noteq> []
   \<and> (\<exists>g'. Update no_keys (0, 0) game_crashed = Inr g'
          \<and> unat (color g') = (unat (color game_crashed) + speed) mod 256
          \<and> unat (color g') = 24)"
proof -
  have h1: "snake game_crashed \<noteq> []" by (simp add: game_crashed_def)
  have c: "(unat (color game_crashed) + speed) mod 256 = 24"
    by (simp add: game_crashed_def speed_val)
  from accumulator_step [OF h1, of no_keys "(0, 0)", THEN conjunct2]
  obtain g' where "Update no_keys (0, 0) game_crashed = Inr g'"
      "unat (color g') = (unat (color game_crashed) + speed) mod 256"
    by blast
  with c h1 show ?thesis by simp
qed

subsection \<open>The snake is never empty\<close>

lemma Update_total:
  assumes "snake g \<noteq> []"
  shows "\<exists>g'. Update kb rnd g = Inr g' \<and> snake g' \<noteq> []"
proof -
  have k: "snake (handleKeyboard kb g) \<noteq> []" using assms by (simp add: handleKeyboard_fields)
  from logical_tick_total [OF k, of rnd "last (snake g)"] assms show ?thesis
    by (auto simp: Update_frame handleKeyboard_fields)
qed

lemma run_total:
  "snake g \<noteq> [] \<Longrightarrow> \<exists>g'. run fs g = Inr g' \<and> snake g' \<noteq> []"
proof (induction fs arbitrary: g)
  case Nil
  then show ?case by simp
next
  case (Cons f fs)
  from Update_total [OF Cons.prems, of "fst f" "snd f"]
  obtain g1 where "Update (fst f) (snd f) g = Inr g1" "snake g1 \<noteq> []" by blast
  with Cons.IH [of g1] show ?case by simp
qed

lemma NewGame_snake: "length (snake (NewGame r)) = 1"
  by (simp add: NewGame_def setFood_eq)

text \<open>
  C9. The snake of a new game has a segment; an update of a game whose snake has a
  segment does not panic and leaves a snake with a segment, in every phase; so every
  run of frames from a new game ends with a snake of length at least 1.
\<close>
theorem snake_never_empty:
  "1 \<le> length (snake (NewGame r))
   \<and> (\<forall>kb rnd g. 1 \<le> length (snake g) \<longrightarrow>
         (\<exists>g'. Update kb rnd g = Inr g' \<and> 1 \<le> length (snake g')))
   \<and> (\<forall>fs. \<exists>g'. run fs (NewGame r) = Inr g' \<and> 1 \<le> length (snake g'))"
proof -
  have ne: "snake (NewGame r) \<noteq> []" using NewGame_snake [of r] by auto
  have a: "\<And>s::Point list. 1 \<le> length s \<longleftrightarrow> s \<noteq> []"
    by (simp add: Suc_le_eq)
  show ?thesis
    unfolding a using ne Update_total run_total by blast
qed

theorem snake_never_empty_witness:
  "1 \<le> length (snake (NewGame (3, 4)))
   \<and> (\<exists>g'. Update no_keys (0, 0) (NewGame (3, 4)) = Inr g' \<and> 1 \<le> length (snake g'))
   \<and> (\<exists>g'. run [idle, idle] (NewGame (3, 4)) = Inr g' \<and> 1 \<le> length (snake g'))"
  using snake_never_empty [of "(3, 4)"] by blast

end
